theory Spec2Isabelle
  imports Main "HOL-Library.Word"
begin

section \<open>The data of \<open>chain.cc\<close>\<close>

text \<open>
  \<open>chain_xact_handlers\<close> (chain.cc, lines 38 to 185) receives the report by reference, a
  base handler and the flag \<open>handle_individual_xacts\<close>, and returns the head of a chain of
  transaction handlers. Each handler class of filters.h takes the handler it forwards to
  as its first constructor argument; \<open>handler.reset(new X(handler, ...))\<close> therefore makes
  the new \<open>X\<close> the head and the chain so far its successor.
\<close>

type_synonym long = "64 word"

text \<open>
  The scope an expression is bound to is held through a pointer. Three cases are told
  apart: the null pointer, the address of the report handed to \<open>chain_xact_handlers\<close>
  (\<open>&report\<close>), and the address of any other scope.
\<close>

datatype scope_ptr = null_scope | this_report | other_scope nat

text \<open>
  \<open>expr_t\<close>: the text of the expression and the scope pointer \<open>set_context\<close> stores.
  The class is declared in expr.h; chain.cc uses only \<open>set_context\<close> and passes
  expressions on to the handlers.
\<close>

record expr_t =
  text_of :: string
  context_of :: scope_ptr

definition set_context :: "scope_ptr \<Rightarrow> expr_t \<Rightarrow> expr_t" where
  "set_context scope e = e\<lparr>context_of := scope\<rparr>"

text \<open>
  One option of the report: \<open>HANDLED(name)\<close> reads the flag, \<open>HANDLER(name)\<close> the option
  object. The payload \<open>val\<close> is what chain.cc reads off the object: \<open>value.to_long()\<close> for
  head and tail, \<open>str()\<close> for the textual options, \<open>expr\<close> for amount and total, nothing
  for the options that are only tested. The payload is there whether or not the option
  is handled: line 51 reads the tail count when only head was given. An option the
  source names with a trailing underscore (\<^verbatim>\<open>head_\<close>, \<^verbatim>\<open>sort_\<close>) is the field
  \<open>head_opt\<close>, \<open>sort_opt\<close> here.
\<close>

record 'a option_t =
  handled :: bool
  val :: 'a

abbreviation HANDLED :: "'a option_t \<Rightarrow> bool" where
  "HANDLED opt \<equiv> handled opt"

datatype keep_details_t = keep_details nat

datatype session_t = session_ref nat

record report_t =
  head_opt :: "long option_t"
  tail_opt :: "long option_t"
  display_opt :: "string option_t"
  amount_opt :: "expr_t option_t"
  only_opt :: "string option_t"
  sort_opt :: "string option_t"
  sort_entries_opt :: "unit option_t"
  revalued :: "unit option_t"
  total_opt :: "expr_t option_t"
  revalued_only :: "unit option_t"
  collapse :: "unit option_t"
  subtotal :: "unit option_t"
  dow :: "unit option_t"
  by_payee :: "unit option_t"
  period_opt :: "string option_t"
  invert :: "unit option_t"
  related :: "unit option_t"
  related_all :: "unit option_t"
  anon :: "unit option_t"
  limit_opt :: "string option_t"
  comm_as_payee :: "unit option_t"
  code_as_payee :: "unit option_t"
  what_to_keep :: keep_details_t
  session :: session_t

text \<open>\<open>item_predicate<xact_t>(text, what_to_keep)\<close>, as handed to \<open>filter_xacts\<close>.\<close>

record item_predicate =
  predicate :: string
  keep :: keep_details_t

text \<open>
  The handler classes chain.cc instantiates, each with its constructor arguments in the
  order of the source. \<open>sink\<close> stands for a handler that forwards to nobody, such as the
  formatter the caller supplies as base handler.
\<close>

datatype 'o xact_handler =
    sink 'o
  | truncate_entries "'o xact_handler" long long
  | filter_xacts "'o xact_handler" item_predicate
  | calc_xacts "'o xact_handler" expr_t
  | sort_entries "'o xact_handler" string
  | sort_xacts "'o xact_handler" string
  | changed_value_xacts "'o xact_handler" expr_t bool
  | collapse_xacts "'o xact_handler" session_t
  | subtotal_xacts "'o xact_handler"
  | dow_xacts "'o xact_handler"
  | by_payee_xacts "'o xact_handler"
  | interval_xacts "'o xact_handler" string
  | invert_xacts "'o xact_handler"
  | related_xacts "'o xact_handler" bool
  | anonymize_xacts "'o xact_handler"
  | set_comm_as_payee "'o xact_handler"
  | set_code_as_payee "'o xact_handler"

datatype error = assertion_failed | expression_failure string

section \<open>The builder\<close>

text \<open>
  Modelled from the spec: the \<open>assert\<close> macro of utils.h is not among the sources.
  Section 7 (a) of the specification makes a violated precondition fatal at build time,
  so a false condition ends the call with an error and a true one lets it go on.
\<close>

definition assert_that :: "bool \<Rightarrow> (unit \<Rightarrow> error + 'a) \<Rightarrow> error + 'a" where
  "assert_that c k = (if c then k () else Inl assertion_failed)"

text \<open>
  Lines 46 to 118, the body of \<open>if (handle_individual_xacts)\<close>. The report is returned
  with the handler because line 65 writes to the expression of the amount option in place.
\<close>

definition chain_individual ::
  "report_t \<Rightarrow> 'o xact_handler \<Rightarrow> error + (report_t \<times> 'o xact_handler)" where
  "chain_individual report handler0 =
    (let handler =
           (if HANDLED (head_opt report) \<or> HANDLED (tail_opt report)
            then truncate_entries handler0 (val (head_opt report)) (val (tail_opt report))
            else handler0);
         handler =
           (if HANDLED (display_opt report)
            then filter_xacts handler
                   \<lparr>predicate = val (display_opt report), keep = what_to_keep report\<rparr>
            else handler)
     in assert_that (HANDLED (amount_opt report)) (\<lambda>_.
        let report =
              report\<lparr>amount_opt :=
                (amount_opt report)\<lparr>val := set_context this_report (val (amount_opt report))\<rparr>\<rparr>;
            expr = val (amount_opt report);
            handler = calc_xacts handler expr;
            handler =
              (if HANDLED (only_opt report)
               then filter_xacts handler
                      \<lparr>predicate = val (only_opt report), keep = what_to_keep report\<rparr>
               else handler);
            handler =
              (if HANDLED (sort_opt report)
               then (if HANDLED (sort_entries_opt report)
                     then sort_entries handler (val (sort_opt report))
                     else sort_xacts handler (val (sort_opt report)))
               else handler);
            handler =
              (if HANDLED (revalued report)
               then changed_value_xacts handler (val (total_opt report))
                      (HANDLED (revalued_only report))
               else handler);
            handler =
              (if HANDLED (collapse report)
               then collapse_xacts handler (session report)
               else handler);
            handler =
              (if HANDLED (subtotal report) then subtotal_xacts handler else handler);
            handler =
              (if HANDLED (dow report) then dow_xacts handler
               else if HANDLED (by_payee report) then by_payee_xacts handler
               else handler);
            handler =
              (if HANDLED (period_opt report)
               then sort_xacts (interval_xacts handler (val (period_opt report))) ''d''
               else handler)
        in Inr (report, handler)))"

text \<open>Lines 121 to 182, run in both modes (the block under \<open>#if 0\<close> is not compiled).\<close>

definition chain_common :: "report_t \<Rightarrow> 'o xact_handler \<Rightarrow> 'o xact_handler" where
  "chain_common report handler0 =
    (let handler =
           (if HANDLED (invert report) then invert_xacts handler0 else handler0);
         handler =
           (if HANDLED (related report)
            then related_xacts handler (HANDLED (related_all report))
            else handler);
         handler =
           (if HANDLED (anon report) then anonymize_xacts handler else handler);
         handler =
           (if HANDLED (limit_opt report)
            then filter_xacts handler
                   \<lparr>predicate = val (limit_opt report), keep = what_to_keep report\<rparr>
            else handler);
         handler =
           (if HANDLED (comm_as_payee report) then set_comm_as_payee handler
            else if HANDLED (code_as_payee report) then set_code_as_payee handler
            else handler)
     in handler)"

definition chain_xact_handlers ::
  "report_t \<Rightarrow> 'o xact_handler \<Rightarrow> bool \<Rightarrow> error + (report_t \<times> 'o xact_handler)" where
  "chain_xact_handlers report base_handler handle_individual_xacts =
    (if handle_individual_xacts
     then (case chain_individual report base_handler of
             Inl e \<Rightarrow> Inl e
           | Inr (report', handler) \<Rightarrow> Inr (report', chain_common report' handler))
     else Inr (report, chain_common report base_handler))"

text \<open>
  What line 65 leaves behind in the report: the expression of the amount option is bound
  to the report, everything else is as before.
\<close>

definition amount_bound :: "report_t \<Rightarrow> report_t" where
  "amount_bound report =
     report\<lparr>amount_opt :=
       (amount_opt report)\<lparr>val := set_context this_report (val (amount_opt report))\<rparr>\<rparr>"

section \<open>Reading a chain\<close>

text \<open>
  A stage is a handler without its successor. \<open>stages\<close> lists the stages of a chain from
  the head on, which is the order in which a transaction pushed into the head meets them;
  \<open>wrap\<close> puts a stage in front of a chain, as \<open>handler.reset(new X(handler, ...))\<close> does.
\<close>

datatype stage =
    truncate_stage long long
  | filter_stage item_predicate
  | calc_stage expr_t
  | sort_entries_stage string
  | sort_xacts_stage string
  | changed_value_stage expr_t bool
  | collapse_stage session_t
  | subtotal_stage
  | dow_stage
  | by_payee_stage
  | interval_stage string
  | invert_stage
  | related_stage bool
  | anonymize_stage
  | comm_as_payee_stage
  | code_as_payee_stage

fun stages :: "'o xact_handler \<Rightarrow> stage list" where
  "stages (sink _) = []"
| "stages (truncate_entries h a b) = truncate_stage a b # stages h"
| "stages (filter_xacts h p) = filter_stage p # stages h"
| "stages (calc_xacts h e) = calc_stage e # stages h"
| "stages (sort_entries h k) = sort_entries_stage k # stages h"
| "stages (sort_xacts h k) = sort_xacts_stage k # stages h"
| "stages (changed_value_xacts h e b) = changed_value_stage e b # stages h"
| "stages (collapse_xacts h s) = collapse_stage s # stages h"
| "stages (subtotal_xacts h) = subtotal_stage # stages h"
| "stages (dow_xacts h) = dow_stage # stages h"
| "stages (by_payee_xacts h) = by_payee_stage # stages h"
| "stages (interval_xacts h p) = interval_stage p # stages h"
| "stages (invert_xacts h) = invert_stage # stages h"
| "stages (related_xacts h b) = related_stage b # stages h"
| "stages (anonymize_xacts h) = anonymize_stage # stages h"
| "stages (set_comm_as_payee h) = comm_as_payee_stage # stages h"
| "stages (set_code_as_payee h) = code_as_payee_stage # stages h"

fun wrap :: "stage \<Rightarrow> 'o xact_handler \<Rightarrow> 'o xact_handler" where
  "wrap (truncate_stage a b) h = truncate_entries h a b"
| "wrap (filter_stage p) h = filter_xacts h p"
| "wrap (calc_stage e) h = calc_xacts h e"
| "wrap (sort_entries_stage k) h = sort_entries h k"
| "wrap (sort_xacts_stage k) h = sort_xacts h k"
| "wrap (changed_value_stage e b) h = changed_value_xacts h e b"
| "wrap (collapse_stage s) h = collapse_xacts h s"
| "wrap subtotal_stage h = subtotal_xacts h"
| "wrap dow_stage h = dow_xacts h"
| "wrap by_payee_stage h = by_payee_xacts h"
| "wrap (interval_stage p) h = interval_xacts h p"
| "wrap invert_stage h = invert_xacts h"
| "wrap (related_stage b) h = related_xacts h b"
| "wrap anonymize_stage h = anonymize_xacts h"
| "wrap comm_as_payee_stage h = set_comm_as_payee h"
| "wrap code_as_payee_stage h = set_code_as_payee h"

text \<open>
  The stages the builder put in front of the base handler: those of the result that are
  not already stages of the base.
\<close>

definition wired_stages :: "'o xact_handler \<Rightarrow> 'o xact_handler \<Rightarrow> stage list" where
  "wired_stages h base = take (length (stages h) - length (stages base)) (stages h)"

text \<open>
  \<open>followed_by a b xs\<close>: somewhere in \<open>xs\<close> the element \<open>a\<close> stands directly before
  \<open>b\<close>. \<open>runs_before a b xs\<close>: some \<open>a\<close> stands before some \<open>b\<close>.
\<close>

fun followed_by :: "'a \<Rightarrow> 'a \<Rightarrow> 'a list \<Rightarrow> bool" where
  "followed_by a b (x # y # ys) = ((x = a \<and> y = b) \<or> followed_by a b (y # ys))"
| "followed_by a b _ = False"

fun runs_before :: "'a \<Rightarrow> 'a \<Rightarrow> 'a list \<Rightarrow> bool" where
  "runs_before a b [] = False"
| "runs_before a b (x # xs) = ((x = a \<and> b \<in> set xs) \<or> runs_before a b xs)"

section \<open>The precedence order in the words of the specification\<close>

text \<open>
  Section 4.1 of the specification: start with the base, go through the steps in their
  fixed order and let each enabled step wrap the chain assembled so far. The three
  definitions prefixed \<open>spec_\<close> follow that text, not chain.cc; they are compared with
  the builder below. Steps 2 to 10 are taken in individual-transaction mode only; the
  slot for day-of-week or payee grouping holds the day-of-week stage when that option is
  selected and the payee stage otherwise; step 10 is the interval stage with its date
  sort wired next.
\<close>

definition when_set :: "bool \<Rightarrow> 'a list \<Rightarrow> 'a list" where
  "when_set c xs = (if c then xs else [])"

definition wire :: "'o xact_handler \<Rightarrow> stage list \<Rightarrow> 'o xact_handler" where
  "wire base steps = foldl (\<lambda>chain s. wrap s chain) base steps"

definition spec_individual_steps :: "report_t \<Rightarrow> stage list" where
  "spec_individual_steps report =
     when_set (HANDLED (head_opt report) \<or> HANDLED (tail_opt report))
       [truncate_stage (val (head_opt report)) (val (tail_opt report))]
   @ when_set (HANDLED (display_opt report))
       [filter_stage \<lparr>predicate = val (display_opt report), keep = what_to_keep report\<rparr>]
   @ [calc_stage (set_context this_report (val (amount_opt report)))]
   @ when_set (HANDLED (only_opt report))
       [filter_stage \<lparr>predicate = val (only_opt report), keep = what_to_keep report\<rparr>]
   @ when_set (HANDLED (sort_opt report))
       [if HANDLED (sort_entries_opt report) then sort_entries_stage (val (sort_opt report))
        else sort_xacts_stage (val (sort_opt report))]
   @ when_set (HANDLED (revalued report))
       [changed_value_stage (val (total_opt report)) (HANDLED (revalued_only report))]
   @ when_set (HANDLED (collapse report)) [collapse_stage (session report)]
   @ when_set (HANDLED (subtotal report)) [subtotal_stage]
   @ when_set (HANDLED (dow report)) [dow_stage]
   @ when_set (\<not> HANDLED (dow report) \<and> HANDLED (by_payee report)) [by_payee_stage]
   @ when_set (HANDLED (period_opt report))
       [interval_stage (val (period_opt report)), sort_xacts_stage ''d'']"

definition spec_common_steps :: "report_t \<Rightarrow> stage list" where
  "spec_common_steps report =
     when_set (HANDLED (invert report)) [invert_stage]
   @ when_set (HANDLED (related report)) [related_stage (HANDLED (related_all report))]
   @ when_set (HANDLED (anon report)) [anonymize_stage]
   @ when_set (HANDLED (limit_opt report))
       [filter_stage \<lparr>predicate = val (limit_opt report), keep = what_to_keep report\<rparr>]
   @ when_set (HANDLED (comm_as_payee report)) [comm_as_payee_stage]
   @ when_set (\<not> HANDLED (comm_as_payee report) \<and> HANDLED (code_as_payee report))
       [code_as_payee_stage]"

definition spec_wiring_order :: "report_t \<Rightarrow> bool \<Rightarrow> stage list" where
  "spec_wiring_order report individual =
     when_set individual (spec_individual_steps report) @ spec_common_steps report"

section \<open>Expressions the evaluator rejects\<close>







section \<open>What a filter and a calculator do to a stream\<close>

text \<open>
  Modelled from the spec: the classes \<open>filter_xacts\<close> and \<open>calc_xacts\<close> are defined in
  filters.h, which is not among the sources. Section 3 of the specification gives a
  transaction an amount and a computed running total; the amount is kept as a plain
  integer here, in one commodity.
\<close>

record xact_t =
  xact_id :: nat
  xact_amount :: int
  xact_total :: int

text \<open>
  Modelled from the spec: section 4.3, the calculator of \<open>calc_xacts\<close>. The register starts
  at construction; each transaction adds its amount to the register, receives the
  register as its total and is forwarded. \<open>amt\<close> is the evaluator of the amount expression.
\<close>

fun calc_stream :: "(xact_t \<Rightarrow> int) \<Rightarrow> int \<Rightarrow> xact_t list \<Rightarrow> xact_t list" where
  "calc_stream amt register [] = []"
| "calc_stream amt register (t # ts) =
     t\<lparr>xact_total := register + amt t\<rparr> # calc_stream amt (register + amt t) ts"

text \<open>
  Modelled from the spec: sections 4.2 and 4.3. What reaches the sink when the
  transactions \<open>ts\<close> are pushed into the head of a chain and the stream is finished. A
  filter forwards exactly the transactions its predicate holds for (\<open>holds\<close> is the
  evaluator of predicates), a calculator forwards all of them with their totals. The
  result is \<open>None\<close> for a chain with any other stage: their behaviour is not modelled.
\<close>

fun delivered ::
  "(item_predicate \<Rightarrow> xact_t \<Rightarrow> bool) \<Rightarrow> (expr_t \<Rightarrow> xact_t \<Rightarrow> int)
     \<Rightarrow> 'o xact_handler \<Rightarrow> xact_t list \<Rightarrow> xact_t list option" where
  "delivered holds amt (sink _) ts = Some ts"
| "delivered holds amt (filter_xacts h p) ts = delivered holds amt h (filter (holds p) ts)"
| "delivered holds amt (calc_xacts h e) ts = delivered holds amt h (calc_stream (amt e) 0 ts)"
| "delivered holds amt _ ts = None"

section \<open>Concrete reports\<close>

text \<open>A report in which no option is handled, for building concrete reports by update.\<close>

definition no_expr :: expr_t where
  "no_expr = \<lparr>text_of = [], context_of = null_scope\<rparr>"

definition empty_report :: report_t where
  "empty_report =
    \<lparr>head_opt = \<lparr>handled = False, val = 0\<rparr>,
     tail_opt = \<lparr>handled = False, val = 0\<rparr>,
     display_opt = \<lparr>handled = False, val = []\<rparr>,
     amount_opt = \<lparr>handled = False, val = no_expr\<rparr>,
     only_opt = \<lparr>handled = False, val = []\<rparr>,
     sort_opt = \<lparr>handled = False, val = []\<rparr>,
     sort_entries_opt = \<lparr>handled = False, val = ()\<rparr>,
     revalued = \<lparr>handled = False, val = ()\<rparr>,
     total_opt = \<lparr>handled = False, val = no_expr\<rparr>,
     revalued_only = \<lparr>handled = False, val = ()\<rparr>,
     collapse = \<lparr>handled = False, val = ()\<rparr>,
     subtotal = \<lparr>handled = False, val = ()\<rparr>,
     dow = \<lparr>handled = False, val = ()\<rparr>,
     by_payee = \<lparr>handled = False, val = ()\<rparr>,
     period_opt = \<lparr>handled = False, val = []\<rparr>,
     invert = \<lparr>handled = False, val = ()\<rparr>,
     related = \<lparr>handled = False, val = ()\<rparr>,
     related_all = \<lparr>handled = False, val = ()\<rparr>,
     anon = \<lparr>handled = False, val = ()\<rparr>,
     limit_opt = \<lparr>handled = False, val = []\<rparr>,
     comm_as_payee = \<lparr>handled = False, val = ()\<rparr>,
     code_as_payee = \<lparr>handled = False, val = ()\<rparr>,
     what_to_keep = keep_details 0,
     session = session_ref 0\<rparr>"

definition given :: "'a \<Rightarrow> 'a option_t" where
  "given v = \<lparr>handled = True, val = v\<rparr>"

definition amount_expr :: expr_t where
  "amount_expr = \<lparr>text_of = ''amount'', context_of = null_scope\<rparr>"

definition register_report :: report_t where
  "register_report = empty_report\<lparr>amount_opt := given amount_expr\<rparr>"

definition full_report :: report_t where
  "full_report =
     register_report
       \<lparr>head_opt := given 10, display_opt := given ''recent'', sort_opt := given ''t'',
        subtotal := given (), period_opt := given ''monthly'', invert := given (),
        limit_opt := given ''expenses'', code_as_payee := given ()\<rparr>"

definition display_report :: report_t where
  "display_report = register_report\<lparr>display_opt := given ''recent''\<rparr>"

definition sorted_period_report :: report_t where
  "sorted_period_report =
     register_report\<lparr>sort_opt := given ''a'', period_opt := given ''monthly''\<rparr>"

definition subtotal_dow_report :: report_t where
  "subtotal_dow_report = register_report\<lparr>subtotal := given (), dow := given ()\<rparr>"

definition limit_report :: report_t where
  "limit_report =
     empty_report\<lparr>invert := given (), limit_opt := given ''expenses'',
                  comm_as_payee := given ()\<rparr>"

definition sort_entries_period_report :: report_t where
  "sort_entries_period_report =
     register_report\<lparr>sort_entries_opt := given (), period_opt := given ''monthly''\<rparr>"




definition three_xacts :: "xact_t list" where
  "three_xacts =
     [\<lparr>xact_id = 1, xact_amount = 10, xact_total = 0\<rparr>,
      \<lparr>xact_id = 2, xact_amount = 5, xact_total = 0\<rparr>,
      \<lparr>xact_id = 3, xact_amount = 7, xact_total = 0\<rparr>]"

definition not_second :: "item_predicate \<Rightarrow> xact_t \<Rightarrow> bool" where
  "not_second p t = (xact_id t \<noteq> 2)"

definition plain_amount :: "expr_t \<Rightarrow> xact_t \<Rightarrow> int" where
  "plain_amount e t = xact_amount t"

section \<open>The builder wires the steps in order\<close>

lemmas report_defs = full_report_def register_report_def empty_report_def given_def
  amount_expr_def no_expr_def

lemmas builder_defs = chain_xact_handlers_def chain_individual_def chain_common_def
  assert_that_def set_context_def Let_def

lemma stages_wrap: "stages (wrap s h) = s # stages h"
  by (cases s) simp_all

lemma wire_Nil: "wire h [] = h"
  by (simp add: wire_def)

lemma wire_snoc: "wire h (xs @ [s]) = wrap s (wire h xs)"
  by (simp add: wire_def)

lemma wire_append: "wire h (xs @ ys) = wire (wire h xs) ys"
  by (simp add: wire_def)

lemma wire_Cons: "wire h (s # xs) = wire (wrap s h) xs"
  by (simp add: wire_def)

lemma wire_when_set: "wire h (when_set c xs) = (if c then wire h xs else h)"
  by (simp add: when_set_def wire_def)

lemma stages_wire: "stages (wire h xs) = rev xs @ stages h"
  by (induction xs arbitrary: h) (simp_all add: wire_Nil wire_Cons stages_wrap)

lemma wired_stages_wire: "wired_stages (wire h xs) h = rev xs"
  by (simp add: wired_stages_def stages_wire)

lemma fold_individual_steps:
  "(if c then truncate_entries h a b else h) = wire h (when_set c [truncate_stage a b])"
  "(if c then filter_xacts h p else h) = wire h (when_set c [filter_stage p])"
  "calc_xacts h e = wire h [calc_stage e]"
  "(if c then (if c' then sort_entries h k else sort_xacts h k) else h) =
     wire h (when_set c [if c' then sort_entries_stage k else sort_xacts_stage k])"
  "(if c then changed_value_xacts h e r else h) = wire h (when_set c [changed_value_stage e r])"
  "(if c then collapse_xacts h s else h) = wire h (when_set c [collapse_stage s])"
  "(if c then subtotal_xacts h else h) = wire h (when_set c [subtotal_stage])"
  "(if c then dow_xacts h else if c' then by_payee_xacts h else h) =
     wire (wire h (when_set c [dow_stage])) (when_set (\<not> c \<and> c') [by_payee_stage])"
  "(if c then sort_xacts (interval_xacts h p') ''d'' else h) =
     wire h (when_set c [interval_stage p', sort_xacts_stage ''d''])"
  by (simp_all add: wire_def when_set_def)

lemma fold_common_steps:
  "(if c then invert_xacts h else h) = wire h (when_set c [invert_stage])"
  "(if c then related_xacts h r else h) = wire h (when_set c [related_stage r])"
  "(if c then anonymize_xacts h else h) = wire h (when_set c [anonymize_stage])"
  "(if c then filter_xacts h p else h) = wire h (when_set c [filter_stage p])"
  "(if c then set_comm_as_payee h else if c' then set_code_as_payee h else h) =
     wire (wire h (when_set c [comm_as_payee_stage]))
       (when_set (\<not> c \<and> c') [code_as_payee_stage])"
  by (simp_all add: wire_def when_set_def)

lemma chain_common_wire: "chain_common report h = wire h (spec_common_steps report)"
  unfolding chain_common_def fold_common_steps
  by (simp add: Let_def spec_common_steps_def wire_append)

lemma chain_individual_wire:
  "chain_individual report h =
     (if HANDLED (amount_opt report)
      then Inr (amount_bound report, wire h (spec_individual_steps report))
      else Inl assertion_failed)"
  unfolding chain_individual_def fold_individual_steps
  by (simp add: Let_def spec_individual_steps_def wire_append wire_Cons wire_Nil assert_that_def
        amount_bound_def)

lemma chain_xact_handlers_wire:
  "chain_xact_handlers report base individual =
     (if individual \<and> \<not> HANDLED (amount_opt report) then Inl assertion_failed
      else Inr (if individual then amount_bound report else report,
                wire base (spec_wiring_order report individual)))"
proof -
  have "spec_common_steps (amount_bound report) = spec_common_steps report"
    by (simp add: spec_common_steps_def amount_bound_def)
  then show ?thesis
    by (simp add: chain_xact_handlers_def chain_individual_wire chain_common_wire
          spec_wiring_order_def wire_append wire_Nil when_set_def)
qed

lemma built_stages:
  assumes "chain_xact_handlers report base individual = Inr (report', h)"
  shows "wired_stages h base = rev (spec_wiring_order report individual)"
  using assms by (auto simp: chain_xact_handlers_wire wired_stages_wire split: if_splits)

lemma built_report:
  assumes "chain_xact_handlers report base individual = Inr (report', h)"
  shows "report' = (if individual then amount_bound report else report)"
  using assms by (auto simp: chain_xact_handlers_wire split: if_splits)

lemma set_when_set: "x \<in> set (when_set c xs) \<longleftrightarrow> c \<and> x \<in> set xs"
  by (simp add: when_set_def)

lemma rev_when_set: "rev (when_set c xs) = when_set c (rev xs)"
  by (simp add: when_set_def)

lemma when_set_True: "when_set True xs = xs"
  by (simp add: when_set_def)

lemma when_set_False: "when_set False xs = []"
  by (simp add: when_set_def)

lemma mem_wired:
  assumes "chain_xact_handlers report base individual = Inr (report', h)"
  shows "x \<in> set (wired_stages h base) \<longleftrightarrow>
           (individual \<and> x \<in> set (spec_individual_steps report))
           \<or> x \<in> set (spec_common_steps report)"
  by (auto simp: built_stages [OF assms] spec_wiring_order_def set_when_set)

lemma wired_split:
  assumes "chain_xact_handlers report base individual = Inr (report', h)"
  shows "wired_stages h base =
           rev (spec_common_steps report) @ when_set individual (rev (spec_individual_steps report))"
  by (simp add: built_stages [OF assms] spec_wiring_order_def rev_when_set)

lemma rev_common_steps:
  "rev (spec_common_steps report) =
     (if HANDLED (comm_as_payee report) then [comm_as_payee_stage]
      else if HANDLED (code_as_payee report) then [code_as_payee_stage] else [])
     @ (if HANDLED (limit_opt report)
        then [filter_stage \<lparr>predicate = val (limit_opt report), keep = what_to_keep report\<rparr>]
        else [])
     @ (if HANDLED (anon report) then [anonymize_stage] else [])
     @ (if HANDLED (related report) then [related_stage (HANDLED (related_all report))] else [])
     @ (if HANDLED (invert report) then [invert_stage] else [])"
  by (simp add: spec_common_steps_def when_set_def)

lemma rev_individual_steps:
  "rev (spec_individual_steps report) =
     when_set (HANDLED (period_opt report))
       [sort_xacts_stage ''d'', interval_stage (val (period_opt report))]
   @ when_set (\<not> HANDLED (dow report) \<and> HANDLED (by_payee report)) [by_payee_stage]
   @ when_set (HANDLED (dow report)) [dow_stage]
   @ when_set (HANDLED (subtotal report)) [subtotal_stage]
   @ when_set (HANDLED (collapse report)) [collapse_stage (session report)]
   @ when_set (HANDLED (revalued report))
       [changed_value_stage (val (total_opt report)) (HANDLED (revalued_only report))]
   @ when_set (HANDLED (sort_opt report))
       [if HANDLED (sort_entries_opt report) then sort_entries_stage (val (sort_opt report))
        else sort_xacts_stage (val (sort_opt report))]
   @ when_set (HANDLED (only_opt report))
       [filter_stage \<lparr>predicate = val (only_opt report), keep = what_to_keep report\<rparr>]
   @ [calc_stage (set_context this_report (val (amount_opt report)))]
   @ when_set (HANDLED (display_opt report))
       [filter_stage \<lparr>predicate = val (display_opt report), keep = what_to_keep report\<rparr>]
   @ when_set (HANDLED (head_opt report) \<or> HANDLED (tail_opt report))
       [truncate_stage (val (head_opt report)) (val (tail_opt report))]"
  by (simp add: spec_individual_steps_def rev_when_set)

lemma either_or:
  "when_set (\<not> c \<and> d) [t] @ when_set c [s] @ xs =
     (if c then [s] else if d then [t] else []) @ xs"
  by (simp add: when_set_def)

lemma rev_individual_explicit:
  "rev (spec_individual_steps report) =
     (if HANDLED (period_opt report)
      then [sort_xacts_stage ''d'', interval_stage (val (period_opt report))] else [])
   @ (if HANDLED (dow report) then [dow_stage]
      else if HANDLED (by_payee report) then [by_payee_stage] else [])
   @ (if HANDLED (subtotal report) then [subtotal_stage] else [])
   @ (if HANDLED (collapse report) then [collapse_stage (session report)] else [])
   @ (if HANDLED (revalued report)
      then [changed_value_stage (val (total_opt report)) (HANDLED (revalued_only report))]
      else [])
   @ (if HANDLED (sort_opt report)
      then [if HANDLED (sort_entries_opt report) then sort_entries_stage (val (sort_opt report))
            else sort_xacts_stage (val (sort_opt report))]
      else [])
   @ (if HANDLED (only_opt report)
      then [filter_stage \<lparr>predicate = val (only_opt report), keep = what_to_keep report\<rparr>]
      else [])
   @ [calc_stage ((val (amount_opt report))\<lparr>context_of := this_report\<rparr>)]
   @ (if HANDLED (display_opt report)
      then [filter_stage \<lparr>predicate = val (display_opt report), keep = what_to_keep report\<rparr>]
      else [])
   @ (if HANDLED (head_opt report) \<or> HANDLED (tail_opt report)
      then [truncate_stage (val (head_opt report)) (val (tail_opt report))] else [])"
  unfolding rev_individual_steps either_or
  unfolding when_set_def set_context_def
  by (rule refl)

lemma wired_individual_explicit:
  assumes "chain_xact_handlers report base True = Inr (report', h)"
  shows "wired_stages h base =
     (if HANDLED (comm_as_payee report) then [comm_as_payee_stage]
      else if HANDLED (code_as_payee report) then [code_as_payee_stage] else [])
   @ (if HANDLED (limit_opt report)
      then [filter_stage \<lparr>predicate = val (limit_opt report), keep = what_to_keep report\<rparr>]
      else [])
   @ (if HANDLED (anon report) then [anonymize_stage] else [])
   @ (if HANDLED (related report) then [related_stage (HANDLED (related_all report))] else [])
   @ (if HANDLED (invert report) then [invert_stage] else [])
   @ (if HANDLED (period_opt report)
      then [sort_xacts_stage ''d'', interval_stage (val (period_opt report))] else [])
   @ (if HANDLED (dow report) then [dow_stage]
      else if HANDLED (by_payee report) then [by_payee_stage] else [])
   @ (if HANDLED (subtotal report) then [subtotal_stage] else [])
   @ (if HANDLED (collapse report) then [collapse_stage (session report)] else [])
   @ (if HANDLED (revalued report)
      then [changed_value_stage (val (total_opt report)) (HANDLED (revalued_only report))]
      else [])
   @ (if HANDLED (sort_opt report)
      then [if HANDLED (sort_entries_opt report) then sort_entries_stage (val (sort_opt report))
            else sort_xacts_stage (val (sort_opt report))]
      else [])
   @ (if HANDLED (only_opt report)
      then [filter_stage \<lparr>predicate = val (only_opt report), keep = what_to_keep report\<rparr>]
      else [])
   @ [calc_stage ((val (amount_opt report))\<lparr>context_of := this_report\<rparr>)]
   @ (if HANDLED (display_opt report)
      then [filter_stage \<lparr>predicate = val (display_opt report), keep = what_to_keep report\<rparr>]
      else [])
   @ (if HANDLED (head_opt report) \<or> HANDLED (tail_opt report)
      then [truncate_stage (val (head_opt report)) (val (tail_opt report))] else [])"
  unfolding wired_split [OF assms] when_set_True rev_common_steps rev_individual_explicit
  by (simp only: append_assoc)












lemma followed_by_here: "followed_by a b (pre @ a # b # rest)"
proof (induction pre)
  case Nil
  show ?case by simp
next
  case (Cons x pre)
  then show ?case by (cases "pre @ a # b # rest") auto
qed

lemma runs_before_here: "b \<in> set rest \<Longrightarrow> runs_before a b (pre @ a # rest)"
  by (induction pre) auto

lemma full_report_built:
  "chain_xact_handlers full_report (sink (0::nat)) True =
     Inr (amount_bound full_report,
          set_code_as_payee
           (filter_xacts
             (invert_xacts
               (sort_xacts
                 (interval_xacts
                   (subtotal_xacts
                     (sort_xacts
                       (calc_xacts
                         (filter_xacts
                           (truncate_entries (sink 0) 10 0)
                           \<lparr>predicate = ''recent'', keep = keep_details 0\<rparr>)
                         \<lparr>text_of = ''amount'', context_of = this_report\<rparr>)
                       ''t''))
                   ''monthly'')
                 ''d''))
             \<lparr>predicate = ''expenses'', keep = keep_details 0\<rparr>))"
  by (simp add: builder_defs report_defs amount_bound_def)

section \<open>What the filter and the calculator see\<close>

text \<open>
  With the stage behaviour of sections 4.2 and 4.3, a calculator in front of a filter
  totals every transaction and the filter then drops some of them, totals included.
\<close>

lemma calc_before_display_stream:
  "delivered holds amt (calc_xacts (filter_xacts (sink out) p) e) ts =
     Some (filter (holds p) (calc_stream (amt e) 0 ts))"
  by simp

text \<open>
  Three transactions of 10, 5 and 7 pushed through the chain built for a display
  predicate that rejects the second: the third arrives with the total 22, so the
  rejected 5 is part of it.
\<close>

lemma display_excluded_xact_still_counted:
  "(case chain_xact_handlers display_report (sink (0::nat)) True of
      Inl e \<Rightarrow> None
    | Inr (report', h) \<Rightarrow> delivered not_second plain_amount h three_xacts)
   = Some [\<lparr>xact_id = 1, xact_amount = 10, xact_total = 10\<rparr>,
           \<lparr>xact_id = 3, xact_amount = 7, xact_total = 22\<rparr>]"
  by (simp add: builder_defs report_defs display_report_def three_xacts_def not_second_def
        plain_amount_def)

text \<open>
  The total a calculator writes into the transaction at position \<open>i\<close> is the register it
  started from plus the amounts of all transactions up to and including that position.
\<close>

lemma calc_stream_length: "length (calc_stream amt register ts) = length ts"
  by (induction ts arbitrary: register) simp_all

lemma calc_stream_total:
  "i < length ts \<Longrightarrow>
   xact_total (calc_stream amt register ts ! i) = register + sum_list (map amt (take (Suc i) ts))"
proof (induction ts arbitrary: register i)
  case Nil
  then show ?case by simp
next
  case (Cons t ts)
  show ?case
  proof (cases i)
    case 0
    then show ?thesis by simp
  next
    case (Suc j)
    with Cons.prems have "j < length ts" by simp
    from Cons.IH [OF this, of "register + amt t"] Suc show ?thesis
      by (simp add: add.assoc)
  qed
qed

text \<open>
  A chain whose stages are a calculator and then a filter ends in a sink and delivers
  the transactions the filter lets through, with the totals the calculator gave them.
\<close>

lemma stages_starts_calc:
  "stages h = calc_stage e # ss \<Longrightarrow> \<exists>h'. h = calc_xacts h' e \<and> stages h' = ss"
  by (cases h) simp_all

lemma stages_starts_filter:
  "stages h = filter_stage p # ss \<Longrightarrow> \<exists>h'. h = filter_xacts h' p \<and> stages h' = ss"
  by (cases h) simp_all

lemma stages_empty: "stages h = [] \<Longrightarrow> \<exists>out. h = sink out"
  by (cases h) simp_all

lemma calc_then_filter_stream:
  assumes "stages h = [calc_stage e, filter_stage p]"
  shows "delivered holds amt h ts = Some (filter (holds p) (calc_stream (amt e) 0 ts))"
proof -
  from assms obtain h1 where h: "h = calc_xacts h1 e" and s1: "stages h1 = [filter_stage p]"
    by (blast dest: stages_starts_calc)
  from s1 obtain h2 where h1: "h1 = filter_xacts h2 p" and s2: "stages h2 = []"
    by (blast dest: stages_starts_filter)
  from s2 obtain out where "h2 = sink out"
    by (blast dest: stages_empty)
  with h h1 show ?thesis by simp
qed

text \<open>
  For every report that enables the display filter and no other optional stage, and for
  every predicate evaluator, amount evaluator and stream: the chain built in
  individual-transaction mode delivers the transactions that satisfy the display
  predicate, each with the running total over all transactions pushed up to it, those
  the display predicate rejects included.
\<close>

lemma display_only_chain_stream:
  assumes built: "chain_xact_handlers report (sink out) True = Inr (report', h)"
    and shown: "HANDLED (display_opt report)"
    and others:
      "\<not> HANDLED (head_opt report)" "\<not> HANDLED (tail_opt report)"
      "\<not> HANDLED (only_opt report)" "\<not> HANDLED (sort_opt report)"
      "\<not> HANDLED (revalued report)" "\<not> HANDLED (collapse report)"
      "\<not> HANDLED (subtotal report)" "\<not> HANDLED (dow report)"
      "\<not> HANDLED (by_payee report)" "\<not> HANDLED (period_opt report)"
      "\<not> HANDLED (invert report)" "\<not> HANDLED (related report)"
      "\<not> HANDLED (anon report)" "\<not> HANDLED (limit_opt report)"
      "\<not> HANDLED (comm_as_payee report)" "\<not> HANDLED (code_as_payee report)"
  shows "delivered holds amt h ts =
           Some (filter (holds \<lparr>predicate = val (display_opt report), keep = what_to_keep report\<rparr>)
                   (calc_stream (amt ((val (amount_opt report))\<lparr>context_of := this_report\<rparr>)) 0 ts))"
proof -
  have "stages h = wired_stages h (sink out)"
    by (simp add: wired_stages_def)
  also have "\<dots> =
      [calc_stage ((val (amount_opt report))\<lparr>context_of := this_report\<rparr>),
       filter_stage \<lparr>predicate = val (display_opt report), keep = what_to_keep report\<rparr>]"
    using shown others by (simp add: wired_individual_explicit [OF built])
  finally show ?thesis
    by (rule calc_then_filter_stream)
qed

section \<open>The claims\<close>

text \<open>
  C1. Whenever the builder returns a chain, that chain is the base handler wrapped by
  the enabled steps in the fixed precedence order (truncation, display filter,
  calculator, only filter, sort, revaluation, collapse, subtotal, day-of-week or payee
  grouping, interval grouping with its date sort, invert, related, anonymize, limit
  filter, payee substitution), each step wrapping the chain assembled before it. Read
  from the head, the stages are the steps in reverse, followed by those of the base; the
  step wired last is the head of the result and the first stage a transaction meets.
\<close>

theorem C1_wiring_precedence:
  assumes "chain_xact_handlers report base individual = Inr (report', h)"
  shows "h = wire base (spec_wiring_order report individual)
       \<and> stages h = rev (spec_wiring_order report individual) @ stages base
       \<and> (\<forall>steps s. spec_wiring_order report individual = steps @ [s] \<longrightarrow>
            h = wrap s (wire base steps) \<and> hd (stages h) = s)"
proof -
  from assms have h: "h = wire base (spec_wiring_order report individual)"
    by (auto simp: chain_xact_handlers_wire split: if_splits)
  then have "stages h = rev (spec_wiring_order report individual) @ stages base"
    by (simp add: stages_wire)
  moreover have "h = wrap s (wire base steps) \<and> hd (stages h) = s"
    if "spec_wiring_order report individual = steps @ [s]" for steps s
    using h that by (simp add: wire_snoc stages_wrap)
  ultimately show ?thesis using h by blast
qed

theorem C1_wiring_precedence_witness:
  "chain_xact_handlers full_report (sink (0::nat)) True
     = Inr (amount_bound full_report, wire (sink 0) (spec_wiring_order full_report True))
   \<and> stages (wire (sink (0::nat)) (spec_wiring_order full_report True))
     = [code_as_payee_stage,
        filter_stage \<lparr>predicate = ''expenses'', keep = keep_details 0\<rparr>,
        invert_stage,
        sort_xacts_stage ''d'',
        interval_stage ''monthly'',
        subtotal_stage,
        sort_xacts_stage ''t'',
        calc_stage \<lparr>text_of = ''amount'', context_of = this_report\<rparr>,
        filter_stage \<lparr>predicate = ''recent'', keep = keep_details 0\<rparr>,
        truncate_stage 10 0]"
proof -
  let ?h = "set_code_as_payee
           (filter_xacts
             (invert_xacts
               (sort_xacts
                 (interval_xacts
                   (subtotal_xacts
                     (sort_xacts
                       (calc_xacts
                         (filter_xacts
                           (truncate_entries (sink (0::nat)) 10 0)
                           \<lparr>predicate = ''recent'', keep = keep_details 0\<rparr>)
                         \<lparr>text_of = ''amount'', context_of = this_report\<rparr>)
                       ''t''))
                   ''monthly'')
                 ''d''))
             \<lparr>predicate = ''expenses'', keep = keep_details 0\<rparr>)"
  have built: "chain_xact_handlers full_report (sink (0::nat)) True =
     Inr (amount_bound full_report, ?h)"
    by (rule full_report_built)
  from C1_wiring_precedence [OF built]
  have "wire (sink 0) (spec_wiring_order full_report True) = ?h" by simp
  then show ?thesis using built by simp
qed

text \<open>
  C2, as stated, fails. The claim has the display filter run before the calculator. For
  a report with an amount expression and a display predicate the builder returns the
  calculator as head with the display filter behind it, so no display filter runs
  before the calculator.
\<close>

theorem C2_counterexample:
  "chain_xact_handlers display_report (sink (0::nat)) True
     = Inr (amount_bound display_report,
            calc_xacts
              (filter_xacts (sink 0) \<lparr>predicate = ''recent'', keep = keep_details 0\<rparr>)
              \<lparr>text_of = ''amount'', context_of = this_report\<rparr>)
   \<and> \<not> runs_before
         (filter_stage \<lparr>predicate = ''recent'', keep = keep_details 0\<rparr>)
         (calc_stage \<lparr>text_of = ''amount'', context_of = this_report\<rparr>)
         (wired_stages
            (calc_xacts
               (filter_xacts (sink (0::nat)) \<lparr>predicate = ''recent'', keep = keep_details 0\<rparr>)
               \<lparr>text_of = ''amount'', context_of = this_report\<rparr>)
            (sink 0))"
  by (simp add: builder_defs report_defs display_report_def amount_bound_def wired_stages_def)

text \<open>
  C2, amended. In individual-transaction mode with a display predicate, the calculator
  is wired directly after the display filter and so wraps it. From the head on, the
  wired stages are exactly: the stages wired after the calculator (payee substitution,
  limit filter, anonymize, related, invert, date sort and interval stage, day-of-week or
  payee grouping, subtotal, collapse, revaluation, sort, only filter, each when
  enabled), then the calculator, then the display filter, then the truncation stage
  when head or tail is given. The calculator is the only calculator of the chain and
  the display filter is the stage directly after it.
\<close>

theorem C2_calc_runs_before_display:
  assumes "chain_xact_handlers report base True = Inr (report', h)"
    and "HANDLED (display_opt report)"
  shows "wired_stages h base =
     (if HANDLED (comm_as_payee report) then [comm_as_payee_stage]
      else if HANDLED (code_as_payee report) then [code_as_payee_stage] else [])
   @ (if HANDLED (limit_opt report)
      then [filter_stage \<lparr>predicate = val (limit_opt report), keep = what_to_keep report\<rparr>]
      else [])
   @ (if HANDLED (anon report) then [anonymize_stage] else [])
   @ (if HANDLED (related report) then [related_stage (HANDLED (related_all report))] else [])
   @ (if HANDLED (invert report) then [invert_stage] else [])
   @ (if HANDLED (period_opt report)
      then [sort_xacts_stage ''d'', interval_stage (val (period_opt report))] else [])
   @ (if HANDLED (dow report) then [dow_stage]
      else if HANDLED (by_payee report) then [by_payee_stage] else [])
   @ (if HANDLED (subtotal report) then [subtotal_stage] else [])
   @ (if HANDLED (collapse report) then [collapse_stage (session report)] else [])
   @ (if HANDLED (revalued report)
      then [changed_value_stage (val (total_opt report)) (HANDLED (revalued_only report))]
      else [])
   @ (if HANDLED (sort_opt report)
      then [if HANDLED (sort_entries_opt report) then sort_entries_stage (val (sort_opt report))
            else sort_xacts_stage (val (sort_opt report))]
      else [])
   @ (if HANDLED (only_opt report)
      then [filter_stage \<lparr>predicate = val (only_opt report), keep = what_to_keep report\<rparr>]
      else [])
   @ [calc_stage ((val (amount_opt report))\<lparr>context_of := this_report\<rparr>),
      filter_stage \<lparr>predicate = val (display_opt report), keep = what_to_keep report\<rparr>]
   @ (if HANDLED (head_opt report) \<or> HANDLED (tail_opt report)
      then [truncate_stage (val (head_opt report)) (val (tail_opt report))] else [])
   \<and> followed_by
       (calc_stage ((val (amount_opt report))\<lparr>context_of := this_report\<rparr>))
       (filter_stage \<lparr>predicate = val (display_opt report), keep = what_to_keep report\<rparr>)
       (wired_stages h base)"
proof -
  have shown: "HANDLED (display_opt report) = True"
    using assms(2) by simp
  have order: "wired_stages h base =
     (if HANDLED (comm_as_payee report) then [comm_as_payee_stage]
      else if HANDLED (code_as_payee report) then [code_as_payee_stage] else [])
   @ (if HANDLED (limit_opt report)
      then [filter_stage \<lparr>predicate = val (limit_opt report), keep = what_to_keep report\<rparr>]
      else [])
   @ (if HANDLED (anon report) then [anonymize_stage] else [])
   @ (if HANDLED (related report) then [related_stage (HANDLED (related_all report))] else [])
   @ (if HANDLED (invert report) then [invert_stage] else [])
   @ (if HANDLED (period_opt report)
      then [sort_xacts_stage ''d'', interval_stage (val (period_opt report))] else [])
   @ (if HANDLED (dow report) then [dow_stage]
      else if HANDLED (by_payee report) then [by_payee_stage] else [])
   @ (if HANDLED (subtotal report) then [subtotal_stage] else [])
   @ (if HANDLED (collapse report) then [collapse_stage (session report)] else [])
   @ (if HANDLED (revalued report)
      then [changed_value_stage (val (total_opt report)) (HANDLED (revalued_only report))]
      else [])
   @ (if HANDLED (sort_opt report)
      then [if HANDLED (sort_entries_opt report) then sort_entries_stage (val (sort_opt report))
            else sort_xacts_stage (val (sort_opt report))]
      else [])
   @ (if HANDLED (only_opt report)
      then [filter_stage \<lparr>predicate = val (only_opt report), keep = what_to_keep report\<rparr>]
      else [])
   @ [calc_stage ((val (amount_opt report))\<lparr>context_of := this_report\<rparr>),
      filter_stage \<lparr>predicate = val (display_opt report), keep = what_to_keep report\<rparr>]
   @ (if HANDLED (head_opt report) \<or> HANDLED (tail_opt report)
      then [truncate_stage (val (head_opt report)) (val (tail_opt report))] else [])"
    unfolding wired_individual_explicit [OF assms(1)] shown if_True
    by (simp only: append_Cons append_Nil)
  obtain pre rest where "wired_stages h base =
      pre @ calc_stage ((val (amount_opt report))\<lparr>context_of := this_report\<rparr>)
          # filter_stage \<lparr>predicate = val (display_opt report), keep = what_to_keep report\<rparr>
          # rest"
    using assms(2) wired_split [OF assms(1)]
    by (simp add: rev_individual_steps when_set_True set_context_def flip: append_assoc)
  then have "followed_by
       (calc_stage ((val (amount_opt report))\<lparr>context_of := this_report\<rparr>))
       (filter_stage \<lparr>predicate = val (display_opt report), keep = what_to_keep report\<rparr>)
       (wired_stages h base)"
    by (simp only: followed_by_here)
  with order show ?thesis by (rule conjI)
qed

theorem C2_calc_runs_before_display_witness:
  "chain_xact_handlers full_report (sink (0::nat)) True
     = Inr (amount_bound full_report,
            set_code_as_payee
             (filter_xacts
               (invert_xacts
                 (sort_xacts
                   (interval_xacts
                     (subtotal_xacts
                       (sort_xacts
                         (calc_xacts
                           (filter_xacts
                             (truncate_entries (sink 0) 10 0)
                             \<lparr>predicate = ''recent'', keep = keep_details 0\<rparr>)
                           \<lparr>text_of = ''amount'', context_of = this_report\<rparr>)
                         ''t''))
                     ''monthly'')
                   ''d''))
               \<lparr>predicate = ''expenses'', keep = keep_details 0\<rparr>))
   \<and> HANDLED (display_opt full_report)
   \<and> wired_stages
        (set_code_as_payee
          (filter_xacts
            (invert_xacts
              (sort_xacts
                (interval_xacts
                  (subtotal_xacts
                    (sort_xacts
                      (calc_xacts
                        (filter_xacts
                          (truncate_entries (sink (0::nat)) 10 0)
                          \<lparr>predicate = ''recent'', keep = keep_details 0\<rparr>)
                        \<lparr>text_of = ''amount'', context_of = this_report\<rparr>)
                      ''t''))
                  ''monthly'')
                ''d''))
            \<lparr>predicate = ''expenses'', keep = keep_details 0\<rparr>))
        (sink 0)
     = [code_as_payee_stage,
        filter_stage \<lparr>predicate = ''expenses'', keep = keep_details 0\<rparr>,
        invert_stage,
        sort_xacts_stage ''d'',
        interval_stage ''monthly'',
        subtotal_stage,
        sort_xacts_stage ''t'',
        calc_stage \<lparr>text_of = ''amount'', context_of = this_report\<rparr>,
        filter_stage \<lparr>predicate = ''recent'', keep = keep_details 0\<rparr>,
        truncate_stage 10 0]"
proof -
  note built = full_report_built
  have shown: "HANDLED (display_opt full_report)"
    by (simp add: report_defs)
  from C2_calc_runs_before_display [OF built shown] built shown show ?thesis
    by (simp add: report_defs)
qed

text \<open>
  C3, as stated, fails. The claim has the forced date sort follow the interval stage
  and work on its grouped output. For a report with an amount expression, the sort
  expression \<open>a\<close> and a monthly period, the stage after the interval stage is the sort
  by \<open>a\<close>; the sort by date stands before the interval stage.
\<close>

theorem C3_counterexample:
  "chain_xact_handlers sorted_period_report (sink (0::nat)) True
     = Inr (amount_bound sorted_period_report,
            sort_xacts
              (interval_xacts
                 (sort_xacts
                    (calc_xacts (sink 0) \<lparr>text_of = ''amount'', context_of = this_report\<rparr>)
                    ''a'')
                 ''monthly'')
              ''d'')
   \<and> wired_stages
        (sort_xacts
           (interval_xacts
              (sort_xacts
                 (calc_xacts (sink (0::nat)) \<lparr>text_of = ''amount'', context_of = this_report\<rparr>)
                 ''a'')
              ''monthly'')
           ''d'')
        (sink 0)
     = [sort_xacts_stage ''d'', interval_stage ''monthly'', sort_xacts_stage ''a'',
        calc_stage \<lparr>text_of = ''amount'', context_of = this_report\<rparr>]
   \<and> \<not> followed_by (interval_stage ''monthly'') (sort_xacts_stage ''d'')
        [sort_xacts_stage ''d'', interval_stage ''monthly'', sort_xacts_stage ''a'',
         calc_stage \<lparr>text_of = ''amount'', context_of = this_report\<rparr>]"
  by (simp add: builder_defs report_defs sorted_period_report_def amount_bound_def
        wired_stages_def)

text \<open>
  C3, amended. In individual-transaction mode with a period, the forced sort by date is
  wired directly after the interval stage and so wraps it. From the head on, the wired
  stages are exactly: payee substitution, limit filter, anonymize, related and invert
  (each when enabled), then the forced date sort, then the interval stage, then the
  stages wired before it: day-of-week or payee grouping, subtotal, collapse,
  revaluation, the stage of the sort option, only filter (each when enabled), the
  calculator, the display filter and the truncation stage (when enabled). The forced
  sort is the stage directly before the interval stage; a stage from the sort option
  comes after the interval stage.
\<close>

theorem C3_date_sort_precedes_interval:
  assumes "chain_xact_handlers report base True = Inr (report', h)"
    and "HANDLED (period_opt report)"
  shows "wired_stages h base =
     (if HANDLED (comm_as_payee report) then [comm_as_payee_stage]
      else if HANDLED (code_as_payee report) then [code_as_payee_stage] else [])
   @ (if HANDLED (limit_opt report)
      then [filter_stage \<lparr>predicate = val (limit_opt report), keep = what_to_keep report\<rparr>]
      else [])
   @ (if HANDLED (anon report) then [anonymize_stage] else [])
   @ (if HANDLED (related report) then [related_stage (HANDLED (related_all report))] else [])
   @ (if HANDLED (invert report) then [invert_stage] else [])
   @ [sort_xacts_stage ''d'', interval_stage (val (period_opt report))]
   @ (if HANDLED (dow report) then [dow_stage]
      else if HANDLED (by_payee report) then [by_payee_stage] else [])
   @ (if HANDLED (subtotal report) then [subtotal_stage] else [])
   @ (if HANDLED (collapse report) then [collapse_stage (session report)] else [])
   @ (if HANDLED (revalued report)
      then [changed_value_stage (val (total_opt report)) (HANDLED (revalued_only report))]
      else [])
   @ (if HANDLED (sort_opt report)
      then [if HANDLED (sort_entries_opt report) then sort_entries_stage (val (sort_opt report))
            else sort_xacts_stage (val (sort_opt report))]
      else [])
   @ (if HANDLED (only_opt report)
      then [filter_stage \<lparr>predicate = val (only_opt report), keep = what_to_keep report\<rparr>]
      else [])
   @ [calc_stage ((val (amount_opt report))\<lparr>context_of := this_report\<rparr>)]
   @ (if HANDLED (display_opt report)
      then [filter_stage \<lparr>predicate = val (display_opt report), keep = what_to_keep report\<rparr>]
      else [])
   @ (if HANDLED (head_opt report) \<or> HANDLED (tail_opt report)
      then [truncate_stage (val (head_opt report)) (val (tail_opt report))] else [])
   \<and> followed_by (sort_xacts_stage ''d'') (interval_stage (val (period_opt report)))
       (wired_stages h base)
   \<and> (HANDLED (sort_opt report) \<longrightarrow>
        runs_before (interval_stage (val (period_opt report)))
          (if HANDLED (sort_entries_opt report)
           then sort_entries_stage (val (sort_opt report))
           else sort_xacts_stage (val (sort_opt report)))
          (wired_stages h base))"
proof -
  have period: "HANDLED (period_opt report) = True"
    using assms(2) by simp
  have order: "wired_stages h base =
     (if HANDLED (comm_as_payee report) then [comm_as_payee_stage]
      else if HANDLED (code_as_payee report) then [code_as_payee_stage] else [])
   @ (if HANDLED (limit_opt report)
      then [filter_stage \<lparr>predicate = val (limit_opt report), keep = what_to_keep report\<rparr>]
      else [])
   @ (if HANDLED (anon report) then [anonymize_stage] else [])
   @ (if HANDLED (related report) then [related_stage (HANDLED (related_all report))] else [])
   @ (if HANDLED (invert report) then [invert_stage] else [])
   @ [sort_xacts_stage ''d'', interval_stage (val (period_opt report))]
   @ (if HANDLED (dow report) then [dow_stage]
      else if HANDLED (by_payee report) then [by_payee_stage] else [])
   @ (if HANDLED (subtotal report) then [subtotal_stage] else [])
   @ (if HANDLED (collapse report) then [collapse_stage (session report)] else [])
   @ (if HANDLED (revalued report)
      then [changed_value_stage (val (total_opt report)) (HANDLED (revalued_only report))]
      else [])
   @ (if HANDLED (sort_opt report)
      then [if HANDLED (sort_entries_opt report) then sort_entries_stage (val (sort_opt report))
            else sort_xacts_stage (val (sort_opt report))]
      else [])
   @ (if HANDLED (only_opt report)
      then [filter_stage \<lparr>predicate = val (only_opt report), keep = what_to_keep report\<rparr>]
      else [])
   @ [calc_stage ((val (amount_opt report))\<lparr>context_of := this_report\<rparr>)]
   @ (if HANDLED (display_opt report)
      then [filter_stage \<lparr>predicate = val (display_opt report), keep = what_to_keep report\<rparr>]
      else [])
   @ (if HANDLED (head_opt report) \<or> HANDLED (tail_opt report)
      then [truncate_stage (val (head_opt report)) (val (tail_opt report))] else [])"
    unfolding wired_individual_explicit [OF assms(1)] period if_True
    by (rule refl)
  obtain pre rest where shape: "wired_stages h base =
      pre @ sort_xacts_stage ''d'' # interval_stage (val (period_opt report)) # rest"
    and rest: "HANDLED (sort_opt report) \<Longrightarrow>
      (if HANDLED (sort_entries_opt report)
       then sort_entries_stage (val (sort_opt report))
       else sort_xacts_stage (val (sort_opt report))) \<in> set rest"
    using assms(2) wired_split [OF assms(1)]
    by (simp add: rev_individual_steps when_set_True set_when_set)
  have adjacent: "followed_by (sort_xacts_stage ''d'') (interval_stage (val (period_opt report)))
          (wired_stages h base)"
    by (simp only: shape followed_by_here)
  have later: "runs_before (interval_stage (val (period_opt report)))
              (if HANDLED (sort_entries_opt report)
               then sort_entries_stage (val (sort_opt report))
               else sort_xacts_stage (val (sort_opt report)))
              (wired_stages h base)" if sorted: "HANDLED (sort_opt report)"
  proof -
    have "wired_stages h base =
      (pre @ [sort_xacts_stage ''d'']) @ interval_stage (val (period_opt report)) # rest"
      by (simp add: shape)
    then show ?thesis
      using rest [OF sorted] by (simp only: runs_before_here)
  qed
  from order adjacent later show ?thesis by blast
qed

theorem C3_date_sort_precedes_interval_witness:
  "chain_xact_handlers sorted_period_report (sink (0::nat)) True
     = Inr (amount_bound sorted_period_report,
            sort_xacts
              (interval_xacts
                 (sort_xacts
                    (calc_xacts (sink 0) \<lparr>text_of = ''amount'', context_of = this_report\<rparr>)
                    ''a'')
                 ''monthly'')
              ''d'')
   \<and> HANDLED (period_opt sorted_period_report)
   \<and> wired_stages
        (sort_xacts
           (interval_xacts
              (sort_xacts
                 (calc_xacts (sink (0::nat)) \<lparr>text_of = ''amount'', context_of = this_report\<rparr>)
                 ''a'')
              ''monthly'')
           ''d'')
        (sink 0)
     = [sort_xacts_stage ''d'', interval_stage ''monthly'', sort_xacts_stage ''a'',
        calc_stage \<lparr>text_of = ''amount'', context_of = this_report\<rparr>]"
proof -
  have built: "chain_xact_handlers sorted_period_report (sink (0::nat)) True
     = Inr (amount_bound sorted_period_report,
            sort_xacts
              (interval_xacts
                 (sort_xacts
                    (calc_xacts (sink 0) \<lparr>text_of = ''amount'', context_of = this_report\<rparr>)
                    ''a'')
                 ''monthly'')
              ''d'')"
    by (simp add: builder_defs report_defs sorted_period_report_def amount_bound_def)
  have period: "HANDLED (period_opt sorted_period_report)"
    by (simp add: report_defs sorted_period_report_def)
  from C3_date_sort_precedes_interval [OF built period] built period show ?thesis
    by (simp add: report_defs sorted_period_report_def)
qed

text \<open>
  C4, as stated, fails. The claim has day-of-week grouping override plain subtotaling.
  For a report that selects both, the built chain holds the subtotal stage and the
  day-of-week stage.
\<close>

theorem C4_counterexample:
  "chain_xact_handlers subtotal_dow_report (sink (0::nat)) True
     = Inr (amount_bound subtotal_dow_report,
            dow_xacts
              (subtotal_xacts
                 (calc_xacts (sink 0) \<lparr>text_of = ''amount'', context_of = this_report\<rparr>)))
   \<and> subtotal_stage
       \<in> set (wired_stages
                (dow_xacts
                   (subtotal_xacts
                      (calc_xacts (sink (0::nat))
                         \<lparr>text_of = ''amount'', context_of = this_report\<rparr>)))
                (sink 0))
   \<and> dow_stage
       \<in> set (wired_stages
                (dow_xacts
                   (subtotal_xacts
                      (calc_xacts (sink (0::nat))
                         \<lparr>text_of = ''amount'', context_of = this_report\<rparr>)))
                (sink 0))"
  by (simp add: builder_defs report_defs subtotal_dow_report_def amount_bound_def
        wired_stages_def)

text \<open>
  C4, amended. The subtotal stage is wired exactly when the mode is individual and the
  subtotal option is selected, whatever the grouping options say; the day-of-week stage
  exactly when the mode is individual and day-of-week is selected; the payee stage
  exactly when the mode is individual, payee grouping is selected and day-of-week is
  not. So day-of-week and payee grouping exclude each other, day-of-week winning, and
  neither removes the subtotal stage: when a grouping stage and the subtotal stage are
  both wired, the grouping stage stands directly before the subtotal stage.
\<close>

theorem C4_grouping_stages:
  assumes "chain_xact_handlers report base individual = Inr (report', h)"
  shows "(subtotal_stage \<in> set (wired_stages h base)
            \<longleftrightarrow> individual \<and> HANDLED (subtotal report))
       \<and> (dow_stage \<in> set (wired_stages h base)
            \<longleftrightarrow> individual \<and> HANDLED (dow report))
       \<and> (by_payee_stage \<in> set (wired_stages h base)
            \<longleftrightarrow> individual \<and> HANDLED (by_payee report) \<and> \<not> HANDLED (dow report))
       \<and> (individual \<and> HANDLED (subtotal report) \<and> HANDLED (dow report)
            \<longrightarrow> followed_by dow_stage subtotal_stage (wired_stages h base))
       \<and> (individual \<and> HANDLED (subtotal report) \<and> HANDLED (by_payee report)
              \<and> \<not> HANDLED (dow report)
            \<longrightarrow> followed_by by_payee_stage subtotal_stage (wired_stages h base))"
proof -
  have members:
    "subtotal_stage \<in> set (wired_stages h base) \<longleftrightarrow> individual \<and> HANDLED (subtotal report)"
    "dow_stage \<in> set (wired_stages h base) \<longleftrightarrow> individual \<and> HANDLED (dow report)"
    "by_payee_stage \<in> set (wired_stages h base)
       \<longleftrightarrow> individual \<and> HANDLED (by_payee report) \<and> \<not> HANDLED (dow report)"
    by (auto simp: mem_wired [OF assms] spec_individual_steps_def spec_common_steps_def
          set_when_set)
  have dow_first: "followed_by dow_stage subtotal_stage (wired_stages h base)"
    if sel: "individual" "HANDLED (subtotal report)" "HANDLED (dow report)"
  proof -
    obtain pre rest where "wired_stages h base = pre @ dow_stage # subtotal_stage # rest"
      using sel wired_split [OF assms]
      by (simp add: rev_individual_steps when_set_True when_set_False flip: append_assoc)
    then show ?thesis by (simp only: followed_by_here)
  qed
  have payee_first: "followed_by by_payee_stage subtotal_stage (wired_stages h base)"
    if sel: "individual" "HANDLED (subtotal report)" "HANDLED (by_payee report)"
      "\<not> HANDLED (dow report)"
  proof -
    obtain pre rest where "wired_stages h base = pre @ by_payee_stage # subtotal_stage # rest"
      using sel wired_split [OF assms]
      by (simp add: rev_individual_steps when_set_True when_set_False flip: append_assoc)
    then show ?thesis by (simp only: followed_by_here)
  qed
  from members dow_first payee_first show ?thesis by blast
qed

theorem C4_grouping_stages_witness:
  "chain_xact_handlers subtotal_dow_report (sink (0::nat)) True
     = Inr (amount_bound subtotal_dow_report,
            wire (sink 0) (spec_wiring_order subtotal_dow_report True))
   \<and> subtotal_stage
       \<in> set (wired_stages (wire (sink (0::nat)) (spec_wiring_order subtotal_dow_report True))
                (sink 0))
   \<and> dow_stage
       \<in> set (wired_stages (wire (sink (0::nat)) (spec_wiring_order subtotal_dow_report True))
                (sink 0))
   \<and> by_payee_stage
       \<notin> set (wired_stages (wire (sink (0::nat)) (spec_wiring_order subtotal_dow_report True))
                (sink 0))
   \<and> followed_by dow_stage subtotal_stage
       (wired_stages (wire (sink (0::nat)) (spec_wiring_order subtotal_dow_report True))
          (sink 0))"
proof -
  have built: "chain_xact_handlers subtotal_dow_report (sink (0::nat)) True
     = Inr (amount_bound subtotal_dow_report,
            wire (sink 0) (spec_wiring_order subtotal_dow_report True))"
    by (simp add: chain_xact_handlers_wire report_defs subtotal_dow_report_def)
  from C4_grouping_stages [OF built] built show ?thesis
    by (simp add: report_defs subtotal_dow_report_def)
qed

text \<open>
  C5, as stated, fails. The claim has the limit filter evaluated last among the stages.
  For a report with invert, a limit predicate and commodity-as-payee, the stages from
  the head on are payee substitution, limit filter, invert: the last one is invert.
\<close>

theorem C5_counterexample:
  "chain_xact_handlers limit_report (sink (0::nat)) False
     = Inr (limit_report,
            set_comm_as_payee
              (filter_xacts (invert_xacts (sink 0))
                 \<lparr>predicate = ''expenses'', keep = keep_details 0\<rparr>))
   \<and> wired_stages
        (set_comm_as_payee
           (filter_xacts (invert_xacts (sink (0::nat)))
              \<lparr>predicate = ''expenses'', keep = keep_details 0\<rparr>))
        (sink 0)
     = [comm_as_payee_stage,
        filter_stage \<lparr>predicate = ''expenses'', keep = keep_details 0\<rparr>,
        invert_stage]
   \<and> last [comm_as_payee_stage,
            filter_stage \<lparr>predicate = ''expenses'', keep = keep_details 0\<rparr>,
            invert_stage]
       \<noteq> filter_stage \<lparr>predicate = ''expenses'', keep = keep_details 0\<rparr>
   \<and> hd [comm_as_payee_stage,
          filter_stage \<lparr>predicate = ''expenses'', keep = keep_details 0\<rparr>,
          invert_stage]
       \<noteq> filter_stage \<lparr>predicate = ''expenses'', keep = keep_details 0\<rparr>"
  by (simp add: builder_defs report_defs limit_report_def wired_stages_def)

text \<open>
  C5, amended. When the limit option is present, the limit filter is wired after every
  other step except payee substitution. In the order of execution it is therefore the
  first stage, or the second when a payee substitution stage stands before it, and
  every other wired stage comes after it.
\<close>

theorem C5_limit_filter_runs_first:
  assumes "chain_xact_handlers report base individual = Inr (report', h)"
    and "HANDLED (limit_opt report)"
  shows "\<exists>rest. wired_stages h base =
      (if HANDLED (comm_as_payee report) then [comm_as_payee_stage]
       else if HANDLED (code_as_payee report) then [code_as_payee_stage] else [])
      @ filter_stage \<lparr>predicate = val (limit_opt report), keep = what_to_keep report\<rparr>
      # rest"
  using assms(2) wired_split [OF assms(1)] by (simp add: rev_common_steps)

theorem C5_limit_filter_runs_first_witness:
  "chain_xact_handlers limit_report (sink (0::nat)) False
     = Inr (limit_report, wire (sink 0) (spec_wiring_order limit_report False))
   \<and> HANDLED (limit_opt limit_report)
   \<and> (\<exists>rest. wired_stages (wire (sink (0::nat)) (spec_wiring_order limit_report False))
                 (sink 0)
         = [comm_as_payee_stage]
           @ filter_stage \<lparr>predicate = ''expenses'', keep = keep_details 0\<rparr> # rest)"
proof -
  have built: "chain_xact_handlers limit_report (sink (0::nat)) False
     = Inr (limit_report, wire (sink 0) (spec_wiring_order limit_report False))"
    by (simp add: chain_xact_handlers_wire)
  have limit: "HANDLED (limit_opt limit_report)"
    by (simp add: report_defs limit_report_def)
  from C5_limit_filter_runs_first [OF built limit] built limit show ?thesis
    by (simp add: report_defs limit_report_def)
qed






text \<open>
  C8, as stated, fails. The claim has the builder leave every expression of the report
  as it was. For a report whose amount expression is bound to no scope, the builder in
  individual-transaction mode returns a report whose amount expression is bound to the
  report, which is a different report.
\<close>

theorem C8_counterexample:
  "chain_xact_handlers register_report (sink (0::nat)) True
     = Inr (register_report
              \<lparr>amount_opt := given \<lparr>text_of = ''amount'', context_of = this_report\<rparr>\<rparr>,
            calc_xacts (sink 0) \<lparr>text_of = ''amount'', context_of = this_report\<rparr>)
   \<and> register_report\<lparr>amount_opt := given \<lparr>text_of = ''amount'', context_of = this_report\<rparr>\<rparr>
       \<noteq> register_report"
  by (simp add: builder_defs report_defs)

text \<open>
  C8, amended. The builder writes to the report in one place only: in
  individual-transaction mode it binds the expression of the amount option to the
  report. Every other option, flag and payload is returned as it was received, and when
  the mode is not individual the whole report is.
\<close>

theorem C8_only_amount_context_written:
  assumes "chain_xact_handlers report base individual = Inr (report', h)"
  shows "report' =
           (if individual
            then report\<lparr>amount_opt :=
                   (amount_opt report)
                     \<lparr>val := (val (amount_opt report))\<lparr>context_of := this_report\<rparr>\<rparr>\<rparr>
            else report)"
  using built_report [OF assms] by (simp add: amount_bound_def set_context_def)

theorem C8_only_amount_context_written_witness:
  "chain_xact_handlers full_report (sink (0::nat)) True
     = Inr (amount_bound full_report, wire (sink 0) (spec_wiring_order full_report True))
   \<and> amount_bound full_report
     = full_report\<lparr>amount_opt := given \<lparr>text_of = ''amount'', context_of = this_report\<rparr>\<rparr>"
proof -
  have built: "chain_xact_handlers full_report (sink (0::nat)) True
     = Inr (amount_bound full_report, wire (sink 0) (spec_wiring_order full_report True))"
    by (simp add: chain_xact_handlers_wire report_defs)
  from C8_only_amount_context_written [OF built] built show ?thesis
    by (simp add: report_defs)
qed

text \<open>
  C9. When individual-transaction mode is off and none of invert, related, anon, limit,
  comm_as_payee and code_as_payee is handled, the builder returns the base handler it
  was given, wraps nothing around it, and leaves the report as it was.
\<close>

theorem C9_no_option_returns_base:
  assumes "\<not> HANDLED (invert report)" and "\<not> HANDLED (related report)"
    and "\<not> HANDLED (anon report)" and "\<not> HANDLED (limit_opt report)"
    and "\<not> HANDLED (comm_as_payee report)" and "\<not> HANDLED (code_as_payee report)"
  shows "chain_xact_handlers report base_handler False = Inr (report, base_handler)"
  using assms by (simp add: chain_xact_handlers_def chain_common_def)

theorem C9_no_option_returns_base_witness:
  "chain_xact_handlers (empty_report\<lparr>sort_opt := given ''d'', subtotal := given ()\<rparr>)
     (sink (0::nat)) False
   = Inr (empty_report\<lparr>sort_opt := given ''d'', subtotal := given ()\<rparr>, sink 0)"
  using C9_no_option_returns_base
    [of "empty_report\<lparr>sort_opt := given ''d'', subtotal := given ()\<rparr>" "sink (0::nat)"]
  by (simp add: empty_report_def)

text \<open>
  C10, as stated, fails. The claim has no sort stage wired when the sort option is
  absent. For a report with an amount expression, sort_entries and a monthly period but
  no sort option, the built chain holds the sort by date that comes with the interval
  stage.
\<close>

theorem C10_counterexample:
  "\<not> HANDLED (sort_opt sort_entries_period_report)
   \<and> HANDLED (sort_entries_opt sort_entries_period_report)
   \<and> chain_xact_handlers sort_entries_period_report (sink (0::nat)) True
     = Inr (amount_bound sort_entries_period_report,
            sort_xacts
              (interval_xacts
                 (calc_xacts (sink 0) \<lparr>text_of = ''amount'', context_of = this_report\<rparr>)
                 ''monthly'')
              ''d'')
   \<and> sort_xacts_stage ''d''
       \<in> set (wired_stages
                (sort_xacts
                   (interval_xacts
                      (calc_xacts (sink (0::nat))
                         \<lparr>text_of = ''amount'', context_of = this_report\<rparr>)
                      ''monthly'')
                   ''d'')
                (sink 0))"
  by (simp add: builder_defs report_defs sort_entries_period_report_def amount_bound_def
        wired_stages_def)

text \<open>
  C10, amended. When the sort option is absent, no stage that sorts by entry is wired,
  the only sort stage the chain can hold is the sort by date wired with the interval
  stage (individual mode, period present), and sort_entries has no effect: whatever
  value that option is given, the builder returns the same chain, and the same report
  up to that option.
\<close>

theorem C10_sort_entries_alone:
  assumes "chain_xact_handlers report base individual = Inr (report', h)"
    and "\<not> HANDLED (sort_opt report)"
  shows "(\<forall>k. sort_entries_stage k \<notin> set (wired_stages h base))
       \<and> (\<forall>k. sort_xacts_stage k \<in> set (wired_stages h base)
              \<longrightarrow> k = ''d'' \<and> individual \<and> HANDLED (period_opt report))
       \<and> (\<forall>x. chain_xact_handlers (report\<lparr>sort_entries_opt := x\<rparr>) base individual
              = Inr (report'\<lparr>sort_entries_opt := x\<rparr>, h))"
proof -
  have a: "sort_entries_stage k \<notin> set (wired_stages h base)" for k
    using assms(2)
    by (auto simp: mem_wired [OF assms(1)] spec_individual_steps_def spec_common_steps_def
          set_when_set)
  have b: "k = ''d'' \<and> individual \<and> HANDLED (period_opt report)"
    if "sort_xacts_stage k \<in> set (wired_stages h base)" for k
    using assms(2) that
    by (auto simp: mem_wired [OF assms(1)] spec_individual_steps_def spec_common_steps_def
          set_when_set)
  have c: "chain_xact_handlers (report\<lparr>sort_entries_opt := x\<rparr>) base individual
              = Inr (report'\<lparr>sort_entries_opt := x\<rparr>, h)" for x
  proof -
    have "spec_wiring_order (report\<lparr>sort_entries_opt := x\<rparr>) individual
            = spec_wiring_order report individual"
      using assms(2)
      by (simp add: spec_wiring_order_def spec_individual_steps_def spec_common_steps_def
            when_set_False)
    moreover have "amount_bound (report\<lparr>sort_entries_opt := x\<rparr>)
            = (amount_bound report)\<lparr>sort_entries_opt := x\<rparr>"
      by (simp add: amount_bound_def)
    ultimately show ?thesis
      using assms(1) by (auto simp: chain_xact_handlers_wire split: if_splits)
  qed
  from a b c show ?thesis by blast
qed

theorem C10_sort_entries_alone_witness:
  "chain_xact_handlers sort_entries_period_report (sink (0::nat)) True
     = Inr (amount_bound sort_entries_period_report,
            sort_xacts
              (interval_xacts
                 (calc_xacts (sink 0) \<lparr>text_of = ''amount'', context_of = this_report\<rparr>)
                 ''monthly'')
              ''d'')
   \<and> \<not> HANDLED (sort_opt sort_entries_period_report)
   \<and> chain_xact_handlers
       (sort_entries_period_report\<lparr>sort_entries_opt := \<lparr>handled = False, val = ()\<rparr>\<rparr>)
       (sink (0::nat)) True
     = Inr ((amount_bound sort_entries_period_report)
              \<lparr>sort_entries_opt := \<lparr>handled = False, val = ()\<rparr>\<rparr>,
            sort_xacts
              (interval_xacts
                 (calc_xacts (sink 0) \<lparr>text_of = ''amount'', context_of = this_report\<rparr>)
                 ''monthly'')
              ''d'')"
proof -
  have built: "chain_xact_handlers sort_entries_period_report (sink (0::nat)) True
     = Inr (amount_bound sort_entries_period_report,
            sort_xacts
              (interval_xacts
                 (calc_xacts (sink 0) \<lparr>text_of = ''amount'', context_of = this_report\<rparr>)
                 ''monthly'')
              ''d'')"
    by (simp add: builder_defs report_defs sort_entries_period_report_def amount_bound_def)
  have unsorted: "\<not> HANDLED (sort_opt sort_entries_period_report)"
    by (simp add: report_defs sort_entries_period_report_def)
  from C10_sort_entries_alone [OF built unsorted] built unsorted show ?thesis
    by blast
qed

end
